theory Spec2Isabelle
  imports Main "HOL-Library.Multiset"
begin

section \<open>JavaScript defaults\<close>

text \<open>
  The source writes \<^verbatim>\<open>x || d\<close> for an optional number: the default \<open>d\<close> is taken when
  \<open>x\<close> is \<^verbatim>\<open>undefined\<close> (here \<open>None\<close>) and also when \<open>x\<close> is \<open>0\<close>, which is falsy.
\<close>

definition orDefault :: "int option \<Rightarrow> int \<Rightarrow> int" where
  "orDefault x d = (case x of None \<Rightarrow> d | Some v \<Rightarrow> if v = 0 then d else v)"

text \<open>An optional boolean used as a condition: \<^verbatim>\<open>undefined\<close> is falsy.\<close>

definition truthy :: "bool option \<Rightarrow> bool" where
  "truthy b = (case b of None \<Rightarrow> False | Some v \<Rightarrow> v)"

section \<open>StreamRecoveryManager (stream-recovery)\<close>

text \<open>
  The three callbacks of \<^verbatim>\<open>StreamRecoveryOptions\<close> only matter through whether they are
  configured and when they are invoked; every invocation is appended to \<open>m_calls\<close>.
  \<open>m_suspended\<close> counts the runs of \<^verbatim>\<open>_handleTimeout\<close> that are suspended at
  \<^verbatim>\<open>await this._options.onTimeout()\<close>.
\<close>

datatype callback = OnTimeout | OnRecovery | OnMaxRetriesReached

record StreamRecoveryOptions =
  maxRetries :: "int option"
  timeout :: "int option"
  onTimeout :: bool
  onRecovery :: bool
  onMaxRetriesReached :: bool
  useExponentialBackoff :: "bool option"

text \<open>
  A handle returned by \<^verbatim>\<open>setTimeout\<close>: the delay it was armed with, and whether it is
  still pending (neither cleared nor fired).
\<close>

record timer =
  delay :: int
  pending :: bool

record monitor =
  m_retryCount :: nat
  m_timeoutHandle :: "timer option"
  m_lastActivity :: int
  m_isActive :: bool
  m_consecutiveFailures :: nat
  m_lastErrorTime :: "int option"
  m_options :: StreamRecoveryOptions
  m_calls :: "callback list"
  m_suspended :: nat

text \<open>
  The constructor: the given options are spread over the defaults
  (\<open>None\<close> in the argument is a key that is absent). \<open>now\<close> is \<^verbatim>\<open>Date.now()\<close>.
\<close>

definition newStreamRecoveryManager :: "StreamRecoveryOptions \<Rightarrow> int \<Rightarrow> monitor" where
  "newStreamRecoveryManager opts now =
     \<lparr> m_retryCount = 0,
       m_timeoutHandle = None,
       m_lastActivity = now,
       m_isActive = True,
       m_consecutiveFailures = 0,
       m_lastErrorTime = None,
       m_options = opts
         \<lparr> maxRetries := (case maxRetries opts of None \<Rightarrow> Some 5 | Some v \<Rightarrow> Some v),
           timeout := (case timeout opts of None \<Rightarrow> Some 60000 | Some v \<Rightarrow> Some v),
           useExponentialBackoff :=
             (case useExponentialBackoff opts of None \<Rightarrow> Some True | Some v \<Rightarrow> Some v) \<rparr>,
       m_calls = [],
       m_suspended = 0 \<rparr>"

definition clearTimeout :: "timer \<Rightarrow> timer" where
  "clearTimeout t = t\<lparr>pending := False\<rparr>"

text \<open>The duration computed by \<^verbatim>\<open>_resetTimeout\<close> before it calls \<^verbatim>\<open>setTimeout\<close>.\<close>

definition timeoutDuration :: "monitor \<Rightarrow> int" where
  "timeoutDuration m =
     (let base = orDefault (timeout (m_options m)) 60000
      in if truthy (useExponentialBackoff (m_options m)) \<and> m_retryCount m > 0
         then min (base * 2 ^ m_retryCount m) 300000
         else base)"

definition resetTimeout :: "monitor \<Rightarrow> monitor" where
  "resetTimeout m =
     (let m1 = (case m_timeoutHandle m of
                  None \<Rightarrow> m
                | Some t \<Rightarrow> m\<lparr>m_timeoutHandle := Some (clearTimeout t)\<rparr>)
      in if \<not> m_isActive m1 then m1
         else m1\<lparr>m_timeoutHandle := Some \<lparr>delay = timeoutDuration m1, pending = True\<rparr>\<rparr>)"

definition startMonitoring :: "monitor \<Rightarrow> monitor" where
  "startMonitoring m = resetTimeout m"

definition updateActivity :: "monitor \<Rightarrow> int \<Rightarrow> monitor" where
  "updateActivity m now =
     resetTimeout (m\<lparr>m_lastActivity := now, m_consecutiveFailures := 0\<rparr>)"

definition stop :: "monitor \<Rightarrow> monitor" where
  "stop m =
     (let m1 = m\<lparr>m_isActive := False\<rparr>
      in case m_timeoutHandle m1 of
           None \<Rightarrow> m1
         | Some t \<Rightarrow> m1\<lparr>m_timeoutHandle := None\<rparr>)"

definition invoke :: "bool \<Rightarrow> callback \<Rightarrow> monitor \<Rightarrow> monitor" where
  "invoke configured c m = (if configured then m\<lparr>m_calls := m_calls m @ [c]\<rparr> else m)"

text \<open>
  \<^verbatim>\<open>_handleTimeout\<close> is asynchronous. When a timeout callback is configured the handler
  invokes it and is suspended at the \<^verbatim>\<open>await\<close>; what comes after the \<^verbatim>\<open>await\<close>
  (\<open>afterTimeoutCallback\<close>: re-arm, then the recovery callback) runs when the awaited
  callback has settled, by fulfilment or by rejection (\<open>callbackSettles\<close>), and never
  if it does not settle. Other operations may come in between. A callback that throws
  at once is caught at once; that is the run in which nothing comes in between. Without
  a timeout callback there is no \<^verbatim>\<open>await\<close> and the handler runs through.
\<close>

definition afterTimeoutCallback :: "monitor \<Rightarrow> monitor" where
  "afterTimeoutCallback m =
     (let m4 = resetTimeout m
      in invoke (onRecovery (m_options m4)) OnRecovery m4)"

definition handleTimeout :: "monitor \<Rightarrow> int \<Rightarrow> monitor" where
  "handleTimeout m now =
     (let m1 = m\<lparr>m_consecutiveFailures := m_consecutiveFailures m + 1,
                 m_lastErrorTime := Some now\<rparr>
      in if int (m_retryCount m1) \<ge> orDefault (maxRetries (m_options m1)) 5
         then invoke (onMaxRetriesReached (m_options m1)) OnMaxRetriesReached (stop m1)
         else
           (let m2 = m1\<lparr>m_retryCount := m_retryCount m1 + 1\<rparr>
            in if onTimeout (m_options m2)
               then (invoke True OnTimeout m2)\<lparr>m_suspended := m_suspended m2 + 1\<rparr>
               else afterTimeoutCallback m2))"

definition callbackSettles :: "monitor \<Rightarrow> monitor" where
  "callbackSettles m =
     (if m_suspended m = 0 then m
      else afterTimeoutCallback (m\<lparr>m_suspended := m_suspended m - 1\<rparr>))"

text \<open>
  The callback given to \<^verbatim>\<open>setTimeout\<close> runs when the armed timer elapses; a timer that
  was cleared, or that has fired already, does not run it.
\<close>

definition timerFires :: "monitor \<Rightarrow> int \<Rightarrow> monitor" where
  "timerFires m now =
     (case m_timeoutHandle m of
        None \<Rightarrow> m
      | Some t \<Rightarrow>
          if \<not> pending t then m
          else (let m1 = m\<lparr>m_timeoutHandle := Some (t\<lparr>pending := False\<rparr>)\<rparr>
                in if m_isActive m1 then handleTimeout m1 now else m1))"

definition reportError :: "monitor \<Rightarrow> int \<Rightarrow> monitor" where
  "reportError m now =
     m\<lparr>m_consecutiveFailures := m_consecutiveFailures m + 1, m_lastErrorTime := Some now\<rparr>"

definition reset :: "monitor \<Rightarrow> int \<Rightarrow> monitor" where
  "reset m now =
     resetTimeout (m\<lparr>m_retryCount := 0, m_consecutiveFailures := 0,
                     m_lastActivity := now, m_lastErrorTime := None\<rparr>)"

definition calculateHealthScore :: "monitor \<Rightarrow> int \<Rightarrow> int" where
  "calculateHealthScore m now =
     (let failurePenalty = int (m_consecutiveFailures m) * 20;
          retryPenalty = int (m_retryCount m) * 15;
          timeSinceActivity = now - m_lastActivity m;
          stalePenalty = (if timeSinceActivity > 30000 then 10 else 0)
      in max 0 (100 - failurePenalty - retryPenalty - stalePenalty))"

definition isHealthy :: "monitor \<Rightarrow> int \<Rightarrow> bool" where
  "isHealthy m now = (calculateHealthScore m now > 50 \<and> m_isActive m)"

text \<open>Whether the inactivity timer is armed and has not yet fired or been cleared.\<close>

definition timerPending :: "monitor \<Rightarrow> bool" where
  "timerPending m = (case m_timeoutHandle m of None \<Rightarrow> False | Some t \<Rightarrow> pending t)"

text \<open>The callbacks in a log other than the recovery callback.\<close>

definition timeoutCalls :: "callback list \<Rightarrow> callback list" where
  "timeoutCalls cs = filter (\<lambda>c. c \<noteq> OnRecovery) cs"

text \<open>
  What can happen to a monitor: the calls of its public methods, the timer firing, and
  an awaited timeout callback settling.
\<close>

datatype monitor_op =
    StartMonitoring
  | UpdateActivity int
  | ReportError int
  | Reset int
  | Stop
  | TimerFires int
  | CallbackSettles

fun monitor_step :: "monitor \<Rightarrow> monitor_op \<Rightarrow> monitor" where
  "monitor_step m StartMonitoring = startMonitoring m"
| "monitor_step m (UpdateActivity now) = updateActivity m now"
| "monitor_step m (ReportError now) = reportError m now"
| "monitor_step m (Reset now) = reset m now"
| "monitor_step m Stop = stop m"
| "monitor_step m (TimerFires now) = timerFires m now"
| "monitor_step m CallbackSettles = callbackSettles m"

fun monitor_run :: "monitor \<Rightarrow> monitor_op list \<Rightarrow> monitor" where
  "monitor_run m [] = m"
| "monitor_run m (x # xs) = monitor_run (monitor_step m x) xs"

text \<open>The health score as the specification words it.\<close>

definition spec_health_score :: "nat \<Rightarrow> nat \<Rightarrow> int \<Rightarrow> int" where
  "spec_health_score failures retries idle =
     max 0 (100 - 20 * int failures - 15 * int retries - (if idle > 30000 then 10 else 0))"

text \<open>The options with which the chat action creates its monitor.\<close>

definition chatRecoveryOptions :: StreamRecoveryOptions where
  "chatRecoveryOptions =
     \<lparr> maxRetries = Some 5, timeout = Some 60000, onTimeout = True, onRecovery = False,
       onMaxRetriesReached = True, useExponentialBackoff = Some True \<rparr>"

section \<open>SwitchableStream (switchable-stream)\<close>

text \<open>
  The outward stream is the readable side of the \<^verbatim>\<open>TransformStream\<close> that the class
  extends: the chunks enqueued so far and the state of the stream.
\<close>

datatype stream_state = Readable | Closed | Errored string

record 'a outward =
  out_chunks :: "'a list"
  out_state :: stream_state

text \<open>
  A value that was thrown or that a promise was rejected with, as \<^verbatim>\<open>_handleError\<close>
  uses it: \<^verbatim>\<open>null\<close> and \<^verbatim>\<open>undefined\<close> have no property \<^verbatim>\<open>message\<close> (reading it
  throws), any other value is given by what its \<^verbatim>\<open>message\<close> renders as.
\<close>

datatype fault = NullFault | Fault string

text \<open>
  The controller operations the class uses. \<^verbatim>\<open>enqueue\<close> throws a TypeError once
  the stream is no longer readable; \<^verbatim>\<open>error\<close> and \<^verbatim>\<open>terminate\<close> do nothing then.
  The wording of the runtime's own TypeErrors is not fixed by the source.
\<close>

definition enqueueTypeError :: string where
  "enqueueTypeError = ''Invalid state: Unable to enqueue''"

definition lockedTypeError :: string where
  "lockedTypeError = ''Invalid state: ReadableStream is locked''"

definition nullReaderTypeError :: string where
  "nullReaderTypeError = ''Cannot read properties of null (reading read)''"

definition enqueue :: "'a outward \<Rightarrow> 'a \<Rightarrow> fault + 'a outward" where
  "enqueue out v =
     (if out_state out = Readable then Inr (out\<lparr>out_chunks := out_chunks out @ [v]\<rparr>)
      else Inl (Fault enqueueTypeError))"

definition controllerError :: "'a outward \<Rightarrow> string \<Rightarrow> 'a outward" where
  "controllerError out msg =
     (if out_state out = Readable then out\<lparr>out_state := Errored msg\<rparr> else out)"



text \<open>
  A source stream as the switcher sees it: whether it is already locked to a reader
  (then \<^verbatim>\<open>getReader()\<close> throws), the chunks its reads deliver, how the reads end
  after them (with \<^verbatim>\<open>done\<close>, with a rejected read, or with a read that never
  settles), and whether the promise of \<^verbatim>\<open>cancel()\<close> on its reader settles.
\<close>

datatype ending = Completed | Failed fault | Stalled

record 'a source =
  src_locked :: bool
  src_chunks :: "'a list"
  src_ending :: ending
  src_cancelSettles :: bool

text \<open>
  The promise kept in \<^verbatim>\<open>_pumpingPromise\<close>: pending (the drain loop is waiting on a
  read), settled, or rejected by the initial check of \<^verbatim>\<open>_pumpStream\<close>.
\<close>

datatype promise = Pending | Settled | Rejected

text \<open>
  The fields of the class. \<open>s_controller\<close> says that \<^verbatim>\<open>_controller\<close> is not null; the
  stream it controls is \<open>s_readable\<close>. \<open>s_currentReader\<close> is the source the current
  reader reads, with the chunks still to be read. \<open>s_waiting\<close> holds the calls of
  \<^verbatim>\<open>switchSource\<close> that are suspended at \<^verbatim>\<open>await this._pumpingPromise\<close>, by their
  arguments, in order.
\<close>

record 'a switcher =
  s_controller :: bool
  s_readable :: "'a outward"
  s_currentReader :: "'a source option"
  s_switches :: nat
  s_isActive :: bool
  s_errorCount :: nat
  s_maxErrors :: nat
  s_pumpingPromise :: "promise option"
  s_waiting :: "'a source list"

definition newSwitchableStream :: "'a switcher" where
  "newSwitchableStream =
     \<lparr> s_controller = True,
       s_readable = \<lparr>out_chunks = [], out_state = Readable\<rparr>,
       s_currentReader = None,
       s_switches = 0,
       s_isActive = True,
       s_errorCount = 0,
       s_maxErrors = 10,
       s_pumpingPromise = None,
       s_waiting = [] \<rparr>"

text \<open>Decimal rendering of a counter inside a template string.\<close>

definition digit :: "nat \<Rightarrow> char" where
  "digit d =
     (if d = 0 then CHR ''0'' else if d = 1 then CHR ''1'' else if d = 2 then CHR ''2''
      else if d = 3 then CHR ''3'' else if d = 4 then CHR ''4'' else if d = 5 then CHR ''5''
      else if d = 6 then CHR ''6'' else if d = 7 then CHR ''7'' else if d = 8 then CHR ''8''
      else CHR ''9'')"

function showNat :: "nat \<Rightarrow> string" where
  "showNat n = (if n < 10 then [digit n] else showNat (n div 10) @ [digit (n mod 10)])"
  by pat_completeness auto
termination
  by (relation "measure (\<lambda>n. n)") auto

definition failureMessage :: "nat \<Rightarrow> string \<Rightarrow> string" where
  "failureMessage n msg = ''Stream failed after '' @ showNat n @ '' errors. Last error: '' @ msg"

text \<open>
  \<^verbatim>\<open>_handleError(error)\<close>. At the ceiling the message for \<^verbatim>\<open>controller.error\<close> is
  built inside the \<^verbatim>\<open>try\<close>: for \<^verbatim>\<open>null\<close> or \<^verbatim>\<open>undefined\<close> reading \<^verbatim>\<open>error.message\<close>
  throws there, the \<^verbatim>\<open>catch\<close> logs it, and \<^verbatim>\<open>controller.error\<close> is not called.
\<close>

definition handleError :: "'a switcher \<Rightarrow> fault \<Rightarrow> 'a switcher" where
  "handleError s error =
     (let s1 = s\<lparr>s_errorCount := s_errorCount s + 1\<rparr>
      in if s_errorCount s1 \<ge> s_maxErrors s1
         then (let s2 = s1\<lparr>s_isActive := False\<rparr>
               in if s_controller s2
                  then (case error of
                          NullFault \<Rightarrow> s2
                        | Fault msg \<Rightarrow>
                            s2\<lparr>s_readable :=
                                 controllerError (s_readable s2)
                                   (failureMessage (s_errorCount s2) msg)\<rparr>)
                  else s2)
         else s1)"

text \<open>
  The drain loop of \<^verbatim>\<open>_pumpStream\<close> over the reads of the current reader: the chunks
  still to come and the ending of the source. The result says whether the loop has
  come to its end (then the promise settles) or waits on a read that never settles.
\<close>

fun pumpLoop :: "'a switcher \<Rightarrow> 'a list \<Rightarrow> ending \<Rightarrow> 'a switcher \<times> bool" where
  "pumpLoop s [] e =
     (if \<not> s_isActive s then (s, True)
      else case e of
             Completed \<Rightarrow> (s, True)
           | Failed error \<Rightarrow> (handleError s error, True)
           | Stalled \<Rightarrow> (s, False))"
| "pumpLoop s (v # vs) e =
     (if \<not> s_isActive s then (s, True)
      else if \<not> s_controller s then (s, True)
      else case enqueue (s_readable s) v of
             Inl error \<Rightarrow> (handleError s error, True)
           | Inr out \<Rightarrow> pumpLoop (s\<lparr>s_readable := out\<rparr>) vs e)"

text \<open>
  Calling \<^verbatim>\<open>_pumpStream()\<close> runs its initial check and leaves the loop waiting on its
  first read; the promise is pending.
\<close>

definition startPump :: "'a switcher \<Rightarrow> 'a switcher" where
  "startPump s =
     (if s_currentReader s = None \<or> \<not> s_controller s
      then s\<lparr>s_pumpingPromise := Some Rejected\<rparr>
      else s\<lparr>s_pumpingPromise := Some Pending\<rparr>)"

text \<open>
  The pending drain loop runs as far as its reads let it. Either it comes to its end and
  the promise settles, or all chunks are read and it goes on waiting, the promise still
  pending.
\<close>

definition settlePump :: "'a switcher \<Rightarrow> 'a switcher" where
  "settlePump s =
     (if s_pumpingPromise s = Some Pending
      then (case s_currentReader s of
              None \<Rightarrow>
                (if s_isActive s then handleError s (Fault nullReaderTypeError) else s)
                  \<lparr>s_pumpingPromise := Some Settled\<rparr>
            | Some r \<Rightarrow>
                (case pumpLoop s (src_chunks r) (src_ending r) of
                   (s', settled) \<Rightarrow>
                     if settled then s'\<lparr>s_pumpingPromise := Some Settled\<rparr>
                     else s'\<lparr>s_currentReader := Some (r\<lparr>src_chunks := []\<rparr>)\<rparr>))
      else s)"

text \<open>
  \<^verbatim>\<open>switchSource(newStream)\<close> after its wait for the previous pump. It cancels the
  previous reader and awaits that: a rejection is caught and logged, a promise that never
  settles leaves the call suspended for good. Then \<^verbatim>\<open>getReader()\<close>, which throws on a
  locked stream (the outer \<^verbatim>\<open>catch\<close> hands that to \<^verbatim>\<open>_handleError\<close>), the counter,
  and the new pump.
\<close>

definition cancelSettles :: "'a source option \<Rightarrow> bool" where
  "cancelSettles reader = (case reader of None \<Rightarrow> True | Some r \<Rightarrow> src_cancelSettles r)"

definition resumeSwitch :: "'a switcher \<Rightarrow> 'a source \<Rightarrow> 'a switcher" where
  "resumeSwitch s newStream =
     (if \<not> cancelSettles (s_currentReader s) then s
      else if src_locked newStream then handleError s (Fault lockedTypeError)
      else startPump (s\<lparr>s_currentReader := Some (newStream\<lparr>src_locked := True\<rparr>),
                        s_switches := s_switches s + 1\<rparr>))"

text \<open>
  \<^verbatim>\<open>switchSource(newStream)\<close>. An inactive switcher returns at once. Otherwise the call
  awaits the promise of the previous pump; while that stays pending the call is
  suspended and nothing of the rest has happened.
\<close>

definition switchSource :: "'a switcher \<Rightarrow> 'a source \<Rightarrow> 'a switcher" where
  "switchSource s newStream =
     (if \<not> s_isActive s then s
      else (let s1 = settlePump s
            in if s_pumpingPromise s1 = Some Pending
               then s1\<lparr>s_waiting := s_waiting s1 @ [newStream]\<rparr>
               else resumeSwitch s1 newStream))"



text \<open>The public getters.\<close>

definition switches :: "'a switcher \<Rightarrow> nat" where
  "switches s = s_switches s"









text \<open>
  A source whose reads end in a fault; the fault a pending drain will meet; a source
  that is unlocked, whose reads come to an end and whose cancel settles; the runs in
  which nobody closes the switcher or cancels the outward stream.
\<close>

definition faulty :: "'a source \<Rightarrow> bool" where
  "faulty x = (case src_ending x of Failed error \<Rightarrow> True | Completed \<Rightarrow> False | Stalled \<Rightarrow> False)"

definition pendingFaults :: "'a switcher \<Rightarrow> nat" where
  "pendingFaults s =
     (if s_pumpingPromise s = Some Pending
      then (case s_currentReader s of None \<Rightarrow> 1 | Some r \<Rightarrow> if faulty r then 1 else 0)
      else 0)"



text \<open>
  Example sources: one delivers a chunk and then its next read fails, one delivers a
  chunk and completes.
\<close>

definition faultySource :: "string source" where
  "faultySource =
     \<lparr>src_locked = False, src_chunks = [''c''], src_ending = Failed (Fault ''boom''),
      src_cancelSettles = True\<rparr>"


section \<open>The chat action (api.chat)\<close>

text \<open>
  Token usage. The accumulator \<^verbatim>\<open>cumulativeUsage\<close> holds three numbers; a reported usage
  may be absent altogether, and each of its figures may be absent
  (\<^verbatim>\<open>usage.completionTokens || 0\<close>).
\<close>

record usage =
  completionTokens :: int
  promptTokens :: int
  totalTokens :: int

record reported_usage =
  r_completionTokens :: "int option"
  r_promptTokens :: "int option"
  r_totalTokens :: "int option"

definition zeroUsage :: usage where
  "zeroUsage = \<lparr>completionTokens = 0, promptTokens = 0, totalTokens = 0\<rparr>"

text \<open>
  The block that all three \<^verbatim>\<open>onFinish\<close> handlers share:
  \<^verbatim>\<open>if (usage) { cumulativeUsage.x += usage.x || 0; ... }\<close>.
\<close>

definition addUsage :: "usage \<Rightarrow> reported_usage option \<Rightarrow> usage" where
  "addUsage acc u =
     (case u of
        None \<Rightarrow> acc
      | Some r \<Rightarrow>
          acc\<lparr> completionTokens := completionTokens acc + orDefault (r_completionTokens r) 0,
               promptTokens := promptTokens acc + orDefault (r_promptTokens r) 0,
               totalTokens := totalTokens acc + orDefault (r_totalTokens r) 0 \<rparr>)"

datatype role = System | User | Assistant | Data

record message =
  msg_role :: role
  msg_content :: string

datatype finish_reason = Stop_reason | Length | ContentFilter | ToolCalls | Error_reason | Other | Unknown

text \<open>What a segment hands to \<^verbatim>\<open>onFinish\<close>: its text, its finish reason, its usage.\<close>

record finish_event =
  fin_text :: string
  fin_reason :: finish_reason
  fin_usage :: "reported_usage option"

text \<open>What the handler writes to the data stream.\<close>

datatype annotation =
    UsageAnnotation usage
  | ProgressAnnotation string string nat string
  | MergedStream "message list"

text \<open>
  The state of one request: the \<^verbatim>\<open>SwitchableStream\<close> it creates, the usage accumulator,
  the progress counter, the message list, what has been written to the data stream, and
  the calls made to \<^verbatim>\<open>streamText\<close> for continuations (each with its messages).
  Message ids come from \<^verbatim>\<open>generateId()\<close> and are left out.
\<close>

record chat =
  c_stream :: "string switcher"
  cumulativeUsage :: usage
  progressCounter :: nat
  processedMessages :: "message list"
  dataStream :: "annotation list"
  streamTextCalls :: "message list list"

text \<open>
  What the handler imports from files that are not part of the sources at hand:
  the constants \<^verbatim>\<open>MAX_RESPONSE_SEGMENTS\<close> and \<^verbatim>\<open>CONTINUE_PROMPT\<close>, and the helper
  \<^verbatim>\<open>extractPropertiesFromMessage\<close> (given the last user message, if there is one, it
  yields model and provider). They are parameters of the model.
\<close>

record chat_env =
  MAX_RESPONSE_SEGMENTS :: nat
  CONTINUE_PROMPT :: string
  extractPropertiesFromMessage :: "message option \<Rightarrow> string \<times> string"

definition newChat :: "message list \<Rightarrow> chat" where
  "newChat messages =
     \<lparr> c_stream = newSwitchableStream,
       cumulativeUsage = zeroUsage,
       progressCounter = 1,
       processedMessages = messages,
       dataStream = [],
       streamTextCalls = [] \<rparr>"

text \<open>The \<^verbatim>\<open>onFinish\<close> handlers given to \<^verbatim>\<open>createSummary\<close> and \<^verbatim>\<open>selectContext\<close>.\<close>

definition auxOnFinish :: "chat \<Rightarrow> reported_usage option \<Rightarrow> chat" where
  "auxOnFinish c u = c\<lparr>cumulativeUsage := addUsage (cumulativeUsage c) u\<rparr>"

datatype chat_error = MaximumSegmentsReached

datatype outcome = Finished | Continued | Threw chat_error

definition lastUserMessage :: "message list \<Rightarrow> message option" where
  "lastUserMessage ms =
     (case filter (\<lambda>x. msg_role x = User) ms of [] \<Rightarrow> None | y # ys \<Rightarrow> Some (last (y # ys)))"

definition continueMessage :: "chat_env \<Rightarrow> string \<Rightarrow> string \<Rightarrow> message" where
  "continueMessage env model provider =
     \<lparr> msg_role = User,
       msg_content = ''[Model: '' @ model @ '']'' @ [CHR 0x0A, CHR 0x0A]
                     @ ''[Provider: '' @ provider @ '']'' @ [CHR 0x0A, CHR 0x0A]
                     @ CONTINUE_PROMPT env \<rparr>"

text \<open>
  The \<^verbatim>\<open>onFinish\<close> handler of the streaming options. It returns the state it leaves
  behind together with how it ended: the response is complete, a continuation was
  requested from \<^verbatim>\<open>streamText\<close> and merged into the data stream, or it threw.
  The state changes made before a throw stay.
\<close>

definition onFinish :: "chat_env \<Rightarrow> chat \<Rightarrow> finish_event \<Rightarrow> chat \<times> outcome" where
  "onFinish env c ev =
     (let c1 = c\<lparr>cumulativeUsage := addUsage (cumulativeUsage c) (fin_usage ev)\<rparr>
      in if fin_reason ev \<noteq> Length
         then (c1\<lparr> dataStream := dataStream c1 @
                      [UsageAnnotation (cumulativeUsage c1),
                       ProgressAnnotation ''response'' ''complete'' (progressCounter c1)
                         ''Response Generated''],
                    progressCounter := progressCounter c1 + 1 \<rparr>,
               Finished)
         else if switches (c_stream c1) \<ge> MAX_RESPONSE_SEGMENTS env
         then (c1, Threw MaximumSegmentsReached)
         else
           (let (model, provider) =
                  extractPropertiesFromMessage env (lastUserMessage (processedMessages c1));
                msgs = processedMessages c1 @
                         [\<lparr>msg_role = Assistant, msg_content = fin_text ev\<rparr>,
                          continueMessage env model provider]
            in (c1\<lparr> processedMessages := msgs,
                     streamTextCalls := streamTextCalls c1 @ [msgs],
                     dataStream := dataStream c1 @ [MergedStream msgs] \<rparr>,
                Continued)))"

text \<open>
  The segments of one request: each segment's finish is handled in turn, and the next
  segment exists only when the handler has requested a continuation.
\<close>

fun runSegments :: "chat_env \<Rightarrow> chat \<Rightarrow> finish_event list \<Rightarrow> chat \<times> outcome" where
  "runSegments env c [] = (c, Continued)"
| "runSegments env c (ev # evs) =
     (case onFinish env c ev of
        (c', Continued) \<Rightarrow> runSegments env c' evs
      | (c', Finished) \<Rightarrow> (c', Finished)
      | (c', Threw e) \<Rightarrow> (c', Threw e))"

text \<open>Adding a list of reported usages, one after the other, and their sum.\<close>

definition addUsages :: "usage \<Rightarrow> reported_usage option list \<Rightarrow> usage" where
  "addUsages acc us = foldl addUsage acc us"

text \<open>
  What a report says, read off the report itself: each figure as it is reported,
  an absent figure or an absent report as 0.
\<close>

definition figure :: "int option \<Rightarrow> int" where
  "figure x = (case x of None \<Rightarrow> 0 | Some v \<Rightarrow> v)"

definition reportedValue :: "reported_usage option \<Rightarrow> usage" where
  "reportedValue u =
     (case u of
        None \<Rightarrow> \<lparr>completionTokens = 0, promptTokens = 0, totalTokens = 0\<rparr>
      | Some r \<Rightarrow>
          \<lparr> completionTokens = figure (r_completionTokens r),
            promptTokens = figure (r_promptTokens r),
            totalTokens = figure (r_totalTokens r) \<rparr>)"

definition usageSum :: "reported_usage option list \<Rightarrow> usage" where
  "usageSum us =
     \<lparr> completionTokens = sum_list (map (\<lambda>u. completionTokens (reportedValue u)) us),
       promptTokens = sum_list (map (\<lambda>u. promptTokens (reportedValue u)) us),
       totalTokens = sum_list (map (\<lambda>u. totalTokens (reportedValue u)) us) \<rparr>"

definition usageAdd :: "usage \<Rightarrow> usage \<Rightarrow> usage" where
  "usageAdd a b =
     \<lparr> completionTokens = completionTokens a + completionTokens b,
       promptTokens = promptTokens a + promptTokens b,
       totalTokens = totalTokens a + totalTokens b \<rparr>"

definition usageLe :: "usage \<Rightarrow> usage \<Rightarrow> bool" where
  "usageLe a b =
     (completionTokens a \<le> completionTokens b \<and> promptTokens a \<le> promptTokens b
      \<and> totalTokens a \<le> totalTokens b)"

definition nonNegative :: "reported_usage option \<Rightarrow> bool" where
  "nonNegative u = usageLe zeroUsage (reportedValue u)"

text \<open>Concrete values for the three parameters, for use in examples.\<close>

definition sampleProperties :: "message option \<Rightarrow> string \<times> string" where
  "sampleProperties m = (''model'', ''provider'')"

definition sampleEnv :: "nat \<Rightarrow> chat_env" where
  "sampleEnv n =
     \<lparr> MAX_RESPONSE_SEGMENTS = n, CONTINUE_PROMPT = ''Continue.'',
       extractPropertiesFromMessage = sampleProperties \<rparr>"

section \<open>Properties of the monitor\<close>

lemma stop_stopped:
  "\<not> m_isActive (stop m) \<and> m_timeoutHandle (stop m) = None \<and> m_calls (stop m) = m_calls m
   \<and> m_retryCount (stop m) = m_retryCount m \<and> m_suspended (stop m) = m_suspended m"
  by (simp add: stop_def Let_def split: option.splits)

lemma monitor_step_stopped:
  assumes "\<not> m_isActive m" and "m_timeoutHandle m = None"
  shows "\<not> m_isActive (monitor_step m x) \<and> m_timeoutHandle (monitor_step m x) = None
         \<and> timeoutCalls (m_calls (monitor_step m x)) = timeoutCalls (m_calls m)
         \<and> length (m_calls (monitor_step m x)) + m_suspended (monitor_step m x)
             \<le> length (m_calls m) + m_suspended m"
  using assms
  by (cases x)
     (simp_all add: startMonitoring_def updateActivity_def reportError_def reset_def stop_def
        timerFires_def resetTimeout_def callbackSettles_def afterTimeoutCallback_def
        invoke_def timeoutCalls_def Let_def)

lemma monitor_run_stopped:
  "\<not> m_isActive m \<Longrightarrow> m_timeoutHandle m = None \<Longrightarrow>
   \<not> m_isActive (monitor_run m xs) \<and> m_timeoutHandle (monitor_run m xs) = None
   \<and> timeoutCalls (m_calls (monitor_run m xs)) = timeoutCalls (m_calls m)
   \<and> length (m_calls (monitor_run m xs)) + m_suspended (monitor_run m xs)
       \<le> length (m_calls m) + m_suspended m"
proof (induction xs arbitrary: m)
  case Nil
  then show ?case by simp
next
  case (Cons x xs)
  from monitor_step_stopped[OF Cons.prems, of x]
  have s: "\<not> m_isActive (monitor_step m x)" "m_timeoutHandle (monitor_step m x) = None"
    "timeoutCalls (m_calls (monitor_step m x)) = timeoutCalls (m_calls m)"
    "length (m_calls (monitor_step m x)) + m_suspended (monitor_step m x)
       \<le> length (m_calls m) + m_suspended m"
    by simp_all
  from Cons.IH[OF s(1) s(2)] s(3) s(4) show ?case by simp
qed

lemma timerFires_ceiling:
  assumes "m_isActive m" and "timerPending m"
    and "int (m_retryCount m) \<ge> orDefault (maxRetries (m_options m)) 5"
  shows "\<not> m_isActive (timerFires m now)"
    and "m_timeoutHandle (timerFires m now) = None"
    and "m_retryCount (timerFires m now) = m_retryCount m"
    and "m_calls (timerFires m now) =
           m_calls m @ (if onMaxRetriesReached (m_options m) then [OnMaxRetriesReached] else [])"
  using assms
  by (auto simp add: timerFires_def timerPending_def handleTimeout_def stop_def invoke_def Let_def
      split: option.splits)

lemma timerFires_below:
  assumes "m_isActive m" and "timerPending m"
    and "int (m_retryCount m) < orDefault (maxRetries (m_options m)) 5"
  shows "m_isActive (timerFires m now)"
    and "m_retryCount (timerFires m now) = m_retryCount m + 1"
    and "m_options (timerFires m now) = m_options m"
    and "onTimeout (m_options m) \<Longrightarrow>
           m_calls (timerFires m now) = m_calls m @ [OnTimeout]
           \<and> m_suspended (timerFires m now) = m_suspended m + 1
           \<and> \<not> timerPending (timerFires m now)"
    and "\<not> onTimeout (m_options m) \<Longrightarrow>
           m_calls (timerFires m now) =
             m_calls m @ (if onRecovery (m_options m) then [OnRecovery] else [])
           \<and> timerPending (timerFires m now)"
  using assms
  by (auto simp add: timerFires_def timerPending_def handleTimeout_def afterTimeoutCallback_def
      resetTimeout_def invoke_def Let_def split: option.splits)

lemma chat_options_facts:
  "orDefault (maxRetries chatRecoveryOptions) 5 = 5"
  "orDefault (timeout chatRecoveryOptions) 60000 = 60000"
  "truthy (useExponentialBackoff chatRecoveryOptions)"
  "onMaxRetriesReached chatRecoveryOptions"
  "onTimeout chatRecoveryOptions"
  "\<not> onRecovery chatRecoveryOptions"
  by (simp_all add: chatRecoveryOptions_def orDefault_def truthy_def)

lemma chat_monitor_started:
  "m_isActive (startMonitoring (newStreamRecoveryManager chatRecoveryOptions 0))"
  "timerPending (startMonitoring (newStreamRecoveryManager chatRecoveryOptions 0))"
  "m_retryCount (startMonitoring (newStreamRecoveryManager chatRecoveryOptions 0)) = 0"
  "m_calls (startMonitoring (newStreamRecoveryManager chatRecoveryOptions 0)) = []"
  "m_options (startMonitoring (newStreamRecoveryManager chatRecoveryOptions 0)) = chatRecoveryOptions"
  by (simp_all add: startMonitoring_def newStreamRecoveryManager_def chatRecoveryOptions_def
      resetTimeout_def timerPending_def)

text \<open>
  Claim C3 (retry ceiling of the monitor), the code at a configured \<open>maxRetries\<close> of 0.
  The claim has the monitor stop when the timer fires with \<open>retryCount \<ge> maxRetries\<close>.
  The constructor keeps the 0, but the firing compares with \<^verbatim>\<open>maxRetries || 5\<close>, which
  is 5 for a 0: the monitor, with \<open>retryCount = 0\<close> and its timer pending, stays active
  at the firing, counts a retry, invokes the timeout callback and not the max-retries
  callback, and has its timer armed again once the timeout callback has settled. It
  goes on like that for five firings; the sixth stops it.
\<close>

theorem timeout_firing_zero_max_retries:
  "maxRetries (m_options (startMonitoring
       (newStreamRecoveryManager (chatRecoveryOptions\<lparr>maxRetries := Some 0\<rparr>) 0))) = Some 0
   \<and> m_retryCount (startMonitoring
       (newStreamRecoveryManager (chatRecoveryOptions\<lparr>maxRetries := Some 0\<rparr>) 0)) = 0
   \<and> m_isActive (startMonitoring
       (newStreamRecoveryManager (chatRecoveryOptions\<lparr>maxRetries := Some 0\<rparr>) 0))
   \<and> timerPending (startMonitoring
       (newStreamRecoveryManager (chatRecoveryOptions\<lparr>maxRetries := Some 0\<rparr>) 0))
   \<and> m_isActive (timerFires (startMonitoring
       (newStreamRecoveryManager (chatRecoveryOptions\<lparr>maxRetries := Some 0\<rparr>) 0)) 60000)
   \<and> m_retryCount (timerFires (startMonitoring
       (newStreamRecoveryManager (chatRecoveryOptions\<lparr>maxRetries := Some 0\<rparr>) 0)) 60000) = 1
   \<and> m_calls (timerFires (startMonitoring
       (newStreamRecoveryManager (chatRecoveryOptions\<lparr>maxRetries := Some 0\<rparr>) 0)) 60000) = [OnTimeout]
   \<and> \<not> timerPending (timerFires (startMonitoring
       (newStreamRecoveryManager (chatRecoveryOptions\<lparr>maxRetries := Some 0\<rparr>) 0)) 60000)
   \<and> m_timeoutHandle (callbackSettles (timerFires (startMonitoring
       (newStreamRecoveryManager (chatRecoveryOptions\<lparr>maxRetries := Some 0\<rparr>) 0)) 60000))
      = Some \<lparr>delay = 120000, pending = True\<rparr>
   \<and> m_isActive (monitor_run (startMonitoring
       (newStreamRecoveryManager (chatRecoveryOptions\<lparr>maxRetries := Some 0\<rparr>) 0))
     [TimerFires 1, CallbackSettles, TimerFires 2, CallbackSettles, TimerFires 3, CallbackSettles,
      TimerFires 4, CallbackSettles, TimerFires 5, CallbackSettles])
   \<and> \<not> m_isActive (monitor_run (startMonitoring
       (newStreamRecoveryManager (chatRecoveryOptions\<lparr>maxRetries := Some 0\<rparr>) 0))
     [TimerFires 1, CallbackSettles, TimerFires 2, CallbackSettles, TimerFires 3, CallbackSettles,
      TimerFires 4, CallbackSettles, TimerFires 5, CallbackSettles, TimerFires 6])
   \<and> m_calls (monitor_run (startMonitoring
       (newStreamRecoveryManager (chatRecoveryOptions\<lparr>maxRetries := Some 0\<rparr>) 0))
     [TimerFires 1, CallbackSettles, TimerFires 2, CallbackSettles, TimerFires 3, CallbackSettles,
      TimerFires 4, CallbackSettles, TimerFires 5, CallbackSettles, TimerFires 6])
     = [OnTimeout, OnTimeout, OnTimeout, OnTimeout, OnTimeout, OnMaxRetriesReached]"
  by (simp add: startMonitoring_def newStreamRecoveryManager_def chatRecoveryOptions_def
      resetTimeout_def timerPending_def timerFires_def handleTimeout_def invoke_def
      callbackSettles_def afterTimeoutCallback_def clearTimeout_def stop_def
      orDefault_def timeoutDuration_def truthy_def Let_def)

text \<open>
  Claim C5 (backoff formula), as the code has it. Re-arming an active monitor arms the
  timer with \<open>timeoutDuration\<close>. With backoff enabled and \<open>retryCount = k \<ge> 1\<close> that is
  \<open>min (base * 2 ^ k) 300000\<close>; with \<open>k = 0\<close>, or with backoff disabled, it is the base
  timeout itself, not capped. The base is \<^verbatim>\<open>timeout || 60000\<close>.
\<close>

theorem backoff_duration:
  assumes "m_isActive m"
  shows "m_timeoutHandle (resetTimeout m) = Some \<lparr>delay = timeoutDuration m, pending = True\<rparr>
       \<and> (truthy (useExponentialBackoff (m_options m)) \<and> m_retryCount m \<ge> 1 \<longrightarrow>
            timeoutDuration m =
              min (orDefault (timeout (m_options m)) 60000 * 2 ^ m_retryCount m) 300000)
       \<and> (m_retryCount m = 0 \<longrightarrow>
            timeoutDuration m = orDefault (timeout (m_options m)) 60000)
       \<and> (\<not> truthy (useExponentialBackoff (m_options m)) \<longrightarrow>
            timeoutDuration m = orDefault (timeout (m_options m)) 60000)"
  using assms
  by (auto simp add: resetTimeout_def timeoutDuration_def clearTimeout_def Let_def
      split: option.splits)

theorem backoff_duration_witness:
  "m_timeoutHandle (resetTimeout
      (timerFires (startMonitoring (newStreamRecoveryManager chatRecoveryOptions 0)) 60000))
     = Some \<lparr>delay = 120000, pending = True\<rparr>
   \<and> m_timeoutHandle (resetTimeout (startMonitoring (newStreamRecoveryManager chatRecoveryOptions 0)))
     = Some \<lparr>delay = 60000, pending = True\<rparr>
   \<and> m_timeoutHandle (resetTimeout
        ((newStreamRecoveryManager (chatRecoveryOptions\<lparr>useExponentialBackoff := Some False\<rparr>) 0)
           \<lparr>m_retryCount := 3\<rparr>))
     = Some \<lparr>delay = 60000, pending = True\<rparr>"
proof -
  have lt: "int (m_retryCount (startMonitoring (newStreamRecoveryManager chatRecoveryOptions 0)))
              < orDefault (maxRetries (m_options (startMonitoring (newStreamRecoveryManager chatRecoveryOptions 0)))) 5"
    by (simp add: chat_monitor_started chat_options_facts)
  note f = timerFires_below[OF chat_monitor_started(1) chat_monitor_started(2) lt, of 60000]
  from backoff_duration[OF f(1)] f(2) f(3)
  have one: "m_timeoutHandle (resetTimeout
      (timerFires (startMonitoring (newStreamRecoveryManager chatRecoveryOptions 0)) 60000))
     = Some \<lparr>delay = 120000, pending = True\<rparr>"
    by (simp add: chat_monitor_started chat_options_facts)
  from backoff_duration[OF chat_monitor_started(1)]
  have zero: "m_timeoutHandle (resetTimeout (startMonitoring (newStreamRecoveryManager chatRecoveryOptions 0)))
     = Some \<lparr>delay = 60000, pending = True\<rparr>"
    by (simp add: chat_monitor_started chat_options_facts)
  have a: "m_isActive ((newStreamRecoveryManager (chatRecoveryOptions\<lparr>useExponentialBackoff := Some False\<rparr>) 0)
           \<lparr>m_retryCount := 3\<rparr>)"
    by (simp add: newStreamRecoveryManager_def)
  from backoff_duration[OF a]
  have off: "m_timeoutHandle (resetTimeout
        ((newStreamRecoveryManager (chatRecoveryOptions\<lparr>useExponentialBackoff := Some False\<rparr>) 0)
           \<lparr>m_retryCount := 3\<rparr>))
     = Some \<lparr>delay = 60000, pending = True\<rparr>"
    by (simp add: newStreamRecoveryManager_def chatRecoveryOptions_def truthy_def orDefault_def)
  from one zero off show ?thesis by blast
qed

text \<open>
  The claim C5 as it is worded covers \<open>k = 0\<close>: a monitor with backoff enabled, base
  timeout 600000 and \<open>retryCount = 0\<close> is armed with 600000, while
  \<open>min (600000 * 2 ^ 0) 300000\<close> is 300000.
\<close>

theorem backoff_formula_counterexample:
  "truthy (useExponentialBackoff (m_options
      (newStreamRecoveryManager (chatRecoveryOptions\<lparr>timeout := Some 600000\<rparr>) 0)))
   \<and> m_retryCount (newStreamRecoveryManager (chatRecoveryOptions\<lparr>timeout := Some 600000\<rparr>) 0) = 0
   \<and> m_timeoutHandle (startMonitoring
        (newStreamRecoveryManager (chatRecoveryOptions\<lparr>timeout := Some 600000\<rparr>) 0))
       = Some \<lparr>delay = 600000, pending = True\<rparr>
   \<and> min (600000 * 2 ^ 0) 300000 \<noteq> (600000 :: int)"
  by (simp add: startMonitoring_def newStreamRecoveryManager_def chatRecoveryOptions_def
      resetTimeout_def orDefault_def timeoutDuration_def truthy_def Let_def)

text \<open>
  Claim C7 (reset of the monitor), as the code has it. In every state \<open>reset\<close> sets
  \<open>retryCount\<close> and \<open>consecutiveFailures\<close> to 0, clears \<open>lastErrorTime\<close>, records the
  time as the last activity and leaves \<open>isActive\<close> as it was; afterwards the inactivity
  timer is pending exactly when the monitor is active. A stopped monitor stays without
  a timer.
\<close>

theorem reset_clears_counters:
  "m_retryCount (reset m now) = 0
   \<and> m_consecutiveFailures (reset m now) = 0
   \<and> m_lastErrorTime (reset m now) = None
   \<and> m_lastActivity (reset m now) = now
   \<and> m_isActive (reset m now) = m_isActive m
   \<and> timerPending (reset m now) = m_isActive m"
  by (simp add: reset_def resetTimeout_def timerPending_def clearTimeout_def Let_def split: option.splits)

theorem reset_clears_counters_witness:
  "m_retryCount (reset (startMonitoring (newStreamRecoveryManager chatRecoveryOptions 0)) 7) = 0
   \<and> m_consecutiveFailures (reset (startMonitoring (newStreamRecoveryManager chatRecoveryOptions 0)) 7) = 0
   \<and> timerPending (reset (startMonitoring (newStreamRecoveryManager chatRecoveryOptions 0)) 7)"
  using reset_clears_counters[of "startMonitoring (newStreamRecoveryManager chatRecoveryOptions 0)" 7]
    chat_monitor_started(1)
  by simp

text \<open>
  The claim C7 as it is worded includes a stopped monitor: after \<open>stop\<close>, \<open>reset\<close> leaves
  no timer pending.
\<close>

theorem reset_counterexample:
  "\<not> timerPending (reset (stop (startMonitoring (newStreamRecoveryManager chatRecoveryOptions 0))) 1)"
  by (simp add: reset_def stop_def startMonitoring_def newStreamRecoveryManager_def
      resetTimeout_def timerPending_def Let_def)

text \<open>
  Claim C8 (health score). In every state and at every time the computed score is
  \<open>max 0 (100 - 20 * consecutiveFailures - 15 * retryCount - p)\<close>, where \<open>p\<close> is 10 when
  more than 30000 ms have passed since the last activity and 0 otherwise; and
  \<open>isHealthy\<close> is true exactly when that score is above 50 and the monitor is active.
\<close>

theorem health_score_formula:
  "calculateHealthScore m now =
     spec_health_score (m_consecutiveFailures m) (m_retryCount m) (now - m_lastActivity m)
   \<and> isHealthy m now =
     (spec_health_score (m_consecutiveFailures m) (m_retryCount m) (now - m_lastActivity m) > 50
      \<and> m_isActive m)"
  by (simp add: calculateHealthScore_def isHealthy_def spec_health_score_def Let_def mult.commute)

theorem health_score_formula_witness:
  "calculateHealthScore (reportError (newStreamRecoveryManager chatRecoveryOptions 0) 10) 40000 = 70
   \<and> isHealthy (reportError (newStreamRecoveryManager chatRecoveryOptions 0) 10) 40000"
  using health_score_formula[of "reportError (newStreamRecoveryManager chatRecoveryOptions 0) 10" 40000]
  by (simp add: spec_health_score_def reportError_def newStreamRecoveryManager_def)

text \<open>
  Claim C10 (stopping is permanent). After \<open>stop\<close>, whatever follows (\<open>updateActivity\<close>,
  \<open>reportError\<close>, \<open>reset\<close>, \<open>startMonitoring\<close>, \<open>stop\<close>, the timer trying to fire, an
  awaited timeout callback settling), the monitor is inactive and no timer is pending,
  so the timer's handler never runs again: neither the timeout callback nor the
  max-retries callback is invoked after the stop. The only callbacks that can still
  come are recovery callbacks of handlers that were suspended at their \<^verbatim>\<open>await\<close> when
  the monitor was stopped, one for each at most.
\<close>

theorem stop_is_permanent:
  "\<not> m_isActive (monitor_run (stop m) ops)
   \<and> \<not> timerPending (monitor_run (stop m) ops)
   \<and> timeoutCalls (m_calls (monitor_run (stop m) ops)) = timeoutCalls (m_calls m)
   \<and> length (m_calls (monitor_run (stop m) ops)) \<le> length (m_calls m) + m_suspended m"
  using monitor_run_stopped[of "stop m" ops] stop_stopped[of m]
  by (simp add: timerPending_def)

theorem stop_is_permanent_witness:
  "\<not> m_isActive (monitor_run (stop (timerFires (startMonitoring
        (newStreamRecoveryManager (chatRecoveryOptions\<lparr>onRecovery := True\<rparr>) 0)) 60000))
        [CallbackSettles, UpdateActivity 5, ReportError 6, Reset 7, StartMonitoring, TimerFires 8])
   \<and> \<not> timerPending (monitor_run (stop (timerFires (startMonitoring
        (newStreamRecoveryManager (chatRecoveryOptions\<lparr>onRecovery := True\<rparr>) 0)) 60000))
        [CallbackSettles, UpdateActivity 5, ReportError 6, Reset 7, StartMonitoring, TimerFires 8])
   \<and> m_calls (monitor_run (stop (timerFires (startMonitoring
        (newStreamRecoveryManager (chatRecoveryOptions\<lparr>onRecovery := True\<rparr>) 0)) 60000))
        [CallbackSettles, UpdateActivity 5, ReportError 6, Reset 7, StartMonitoring, TimerFires 8])
      = [OnTimeout, OnRecovery]
   \<and> m_calls (stop (timerFires (startMonitoring
        (newStreamRecoveryManager (chatRecoveryOptions\<lparr>onRecovery := True\<rparr>) 0)) 60000))
      = [OnTimeout]"
proof -
  note t = stop_is_permanent[of "timerFires (startMonitoring
        (newStreamRecoveryManager (chatRecoveryOptions\<lparr>onRecovery := True\<rparr>) 0)) 60000"
      "[CallbackSettles, UpdateActivity 5, ReportError 6, Reset 7, StartMonitoring, TimerFires 8]"]
  have c: "m_calls (monitor_run (stop (timerFires (startMonitoring
        (newStreamRecoveryManager (chatRecoveryOptions\<lparr>onRecovery := True\<rparr>) 0)) 60000))
        [CallbackSettles, UpdateActivity 5, ReportError 6, Reset 7, StartMonitoring, TimerFires 8])
      = [OnTimeout, OnRecovery]"
    by (simp add: startMonitoring_def newStreamRecoveryManager_def chatRecoveryOptions_def
        resetTimeout_def timerFires_def handleTimeout_def invoke_def stop_def
        callbackSettles_def afterTimeoutCallback_def updateActivity_def reportError_def
        reset_def clearTimeout_def orDefault_def timeoutDuration_def truthy_def Let_def)
  have d: "m_calls (stop (timerFires (startMonitoring
        (newStreamRecoveryManager (chatRecoveryOptions\<lparr>onRecovery := True\<rparr>) 0)) 60000))
      = [OnTimeout]"
    by (simp add: startMonitoring_def newStreamRecoveryManager_def chatRecoveryOptions_def
        resetTimeout_def timerFires_def handleTimeout_def invoke_def stop_def
        clearTimeout_def orDefault_def timeoutDuration_def truthy_def Let_def)
  from t c d show ?thesis by blast
qed

section \<open>Properties of the switcher\<close>

lemma handleError_fields:
  "s_switches (handleError s error) = s_switches s"
  "s_errorCount (handleError s error) = s_errorCount s + 1"
  "s_maxErrors (handleError s error) = s_maxErrors s"
  "s_controller (handleError s error) = s_controller s"
  "s_currentReader (handleError s error) = s_currentReader s"
  "s_pumpingPromise (handleError s error) = s_pumpingPromise s"
  "s_waiting (handleError s error) = s_waiting s"
  by (simp_all add: handleError_def Let_def split: fault.splits)




lemma pumpLoop_write_fault:
  assumes "s_isActive s" and "s_controller s" and "out_state (s_readable s) \<noteq> Readable"
  shows "pumpLoop s (v # vs) e = (handleError s (Fault enqueueTypeError), True)"
  using assms by (simp add: enqueue_def)

lemma pumpLoop_switches: "s_switches (fst (pumpLoop s vs e)) = s_switches s"
  by (induction s vs e rule: pumpLoop.induct)
     (auto simp add: handleError_fields split: ending.splits sum.splits)


lemma settlePump_switches: "s_switches (settlePump s) = s_switches s"
  by (simp add: settlePump_def handleError_fields pumpLoop_switches case_prod_beta
      split: option.splits)


lemma resumeSwitch_switches:
  "s_switches (resumeSwitch s x) =
     (if cancelSettles (s_currentReader s) \<and> \<not> src_locked x then s_switches s + 1
      else s_switches s)"
  by (simp add: resumeSwitch_def startPump_def handleError_fields)


lemma switchSource_switches:
  "s_switches (switchSource s x) =
     (if s_isActive s \<and> s_pumpingPromise (settlePump s) \<noteq> Some Pending
         \<and> cancelSettles (s_currentReader (settlePump s)) \<and> \<not> src_locked x
      then s_switches s + 1 else s_switches s)"
  by (simp add: switchSource_def Let_def resumeSwitch_switches settlePump_switches)




lemma new_switcher_facts:
  "s_isActive newSwitchableStream" "s_controller newSwitchableStream"
  "out_state (s_readable newSwitchableStream) = Readable"
  "s_errorCount newSwitchableStream = 0" "pendingFaults newSwitchableStream = 0"
  "s_maxErrors newSwitchableStream = 10" "s_switches newSwitchableStream = 0"
  "s_currentReader newSwitchableStream = None" "s_pumpingPromise newSwitchableStream = None"
  by (simp_all add: newSwitchableStream_def pendingFaults_def)













section \<open>Properties of the chat action\<close>

lemma onFinish_usage:
  "cumulativeUsage (fst (onFinish env c ev)) = addUsage (cumulativeUsage c) (fin_usage ev)"
  by (simp add: onFinish_def Let_def split: prod.splits)

lemma onFinish_stream: "c_stream (fst (onFinish env c ev)) = c_stream c"
  by (simp add: onFinish_def Let_def split: prod.splits)

lemma onFinish_length:
  assumes "fin_reason ev = Length"
  shows "switches (c_stream c) \<ge> MAX_RESPONSE_SEGMENTS env \<Longrightarrow>
           onFinish env c ev =
             (c\<lparr>cumulativeUsage := addUsage (cumulativeUsage c) (fin_usage ev)\<rparr>,
              Threw MaximumSegmentsReached)"
    and "switches (c_stream c) < MAX_RESPONSE_SEGMENTS env \<Longrightarrow>
           snd (onFinish env c ev) = Continued"
    and "switches (c_stream c) < MAX_RESPONSE_SEGMENTS env \<Longrightarrow>
           streamTextCalls (fst (onFinish env c ev)) =
             streamTextCalls c @ [processedMessages (fst (onFinish env c ev))]"
  using assms by (simp_all add: onFinish_def Let_def split: prod.splits)

lemma onFinish_other:
  assumes "fin_reason ev \<noteq> Length"
  shows "snd (onFinish env c ev) = Finished"
    and "streamTextCalls (fst (onFinish env c ev)) = streamTextCalls c"
  using assms by (simp_all add: onFinish_def Let_def)

lemma runSegments_stream: "c_stream (fst (runSegments env c evs)) = c_stream c"
proof (induction evs arbitrary: c)
  case Nil
  then show ?case by simp
next
  case (Cons ev evs)
  obtain c' r where o: "onFinish env c ev = (c', r)" by (cases "onFinish env c ev")
  then have s: "c_stream c' = c_stream c" using onFinish_stream[of env c ev] by simp
  show ?case using o s Cons.IH[of c'] by (cases r) simp_all
qed

lemma onFinish_no_throw:
  assumes "switches (c_stream c) < MAX_RESPONSE_SEGMENTS env"
  shows "snd (onFinish env c ev) \<noteq> Threw e"
  using assms by (simp add: onFinish_def Let_def split: prod.splits)

lemma runSegments_no_throw:
  assumes "switches (c_stream c) < MAX_RESPONSE_SEGMENTS env"
  shows "snd (runSegments env c evs) \<noteq> Threw e"
  using assms
proof (induction evs arbitrary: c)
  case Nil
  then show ?case by simp
next
  case (Cons ev evs)
  obtain c' r where o: "onFinish env c ev = (c', r)" by (cases "onFinish env c ev")
  then have s: "c_stream c' = c_stream c" using onFinish_stream[of env c ev] by simp
  have nt: "r \<noteq> Threw e" for e using onFinish_no_throw[OF Cons.prems, of ev] o by simp
  show ?case using o s Cons.IH[of c'] Cons.prems nt by (cases r) simp_all
qed

lemma runSegments_truncated:
  assumes "switches (c_stream c) < MAX_RESPONSE_SEGMENTS env"
    and "\<forall>ev \<in> set evs. fin_reason ev = Length"
  shows "snd (runSegments env c evs) = Continued
         \<and> cumulativeUsage (fst (runSegments env c evs)) =
             addUsages (cumulativeUsage c) (map fin_usage evs)
         \<and> length (streamTextCalls (fst (runSegments env c evs))) =
             length (streamTextCalls c) + length evs"
  using assms
proof (induction evs arbitrary: c)
  case Nil
  then show ?case by (simp add: addUsages_def)
next
  case (Cons ev evs)
  have l: "fin_reason ev = Length" using Cons.prems(2) by simp
  obtain c' r where o: "onFinish env c ev = (c', r)" by (cases "onFinish env c ev")
  have r: "r = Continued" using onFinish_length(2)[OF l Cons.prems(1)] o by simp
  have s: "c_stream c' = c_stream c" using onFinish_stream[of env c ev] o by simp
  have u: "cumulativeUsage c' = addUsage (cumulativeUsage c) (fin_usage ev)"
    using onFinish_usage[of env c ev] o by simp
  have t: "length (streamTextCalls c') = length (streamTextCalls c) + 1"
    using onFinish_length(3)[OF l Cons.prems(1)] o by simp
  have "switches (c_stream c') < MAX_RESPONSE_SEGMENTS env" using s Cons.prems(1) by simp
  moreover have "\<forall>ev \<in> set evs. fin_reason ev = Length" using Cons.prems(2) by simp
  ultimately show ?case using Cons.IH[of c'] o r u t by (simp add: addUsages_def)
qed

lemma runSegments_append:
  assumes "snd (runSegments env c evs) = Continued"
  shows "runSegments env c (evs @ evs') = runSegments env (fst (runSegments env c evs)) evs'"
  using assms
proof (induction evs arbitrary: c)
  case Nil
  then show ?case by simp
next
  case (Cons ev evs)
  obtain c' r where o: "onFinish env c ev = (c', r)" by (cases "onFinish env c ev")
  show ?case using o Cons by (cases r) simp_all
qed

lemma addUsage_add: "addUsage acc u = usageAdd acc (reportedValue u)"
  by (simp add: addUsage_def usageAdd_def reportedValue_def figure_def orDefault_def
      split: option.splits)

lemma addUsages_sum: "addUsages acc us = usageAdd acc (usageSum us)"
proof (induction us arbitrary: acc)
  case Nil
  then show ?case by (simp add: addUsages_def usageAdd_def usageSum_def)
next
  case (Cons u us)
  have "addUsages acc (u # us) = addUsages (addUsage acc u) us" by (simp add: addUsages_def)
  also have "\<dots> = usageAdd (usageAdd acc (reportedValue u)) (usageSum us)"
    using Cons.IH by (simp add: addUsage_add)
  also have "\<dots> = usageAdd acc (usageSum (u # us))"
    by (simp add: usageAdd_def usageSum_def)
  finally show ?case .
qed

lemma usageSum_mset: "mset us = mset us' \<Longrightarrow> usageSum us = usageSum us'"
proof -
  assume m: "mset us = mset us'"
  have "sum_list (map f us) = sum_list (map f us')" for f :: "reported_usage option \<Rightarrow> int"
  proof -
    have "mset (map f us) = mset (map f us')" using m by (metis mset_map)
    then show ?thesis by (metis sum_mset_sum_list)
  qed
  then show ?thesis by (simp add: usageSum_def)
qed

lemma usageSum_nonneg:
  "\<forall>u \<in> set us. nonNegative u \<Longrightarrow> usageLe zeroUsage (usageSum us)"
  by (induction us) (auto simp add: usageSum_def usageLe_def zeroUsage_def nonNegative_def)

lemma new_chat_switches: "switches (c_stream (newChat ms)) = 0"
  by (simp add: newChat_def switches_def newSwitchableStream_def)

lemma new_chat_stream: "c_stream (newChat ms) = newSwitchableStream"
  by (simp add: newChat_def)

lemma new_chat_usage: "cumulativeUsage (newChat ms) = zeroUsage"
  by (simp add: newChat_def)

text \<open>
  Claim C1 (segment ceiling), as the code has it. When a segment finishes with reason
  \<open>length\<close>, the handler throws \<^verbatim>\<open>Maximum segments reached\<close> exactly when
  \<open>stream.switches \<ge> MAX_RESPONSE_SEGMENTS\<close>; it then requests no continuation and
  leaves messages and stream as they are. While \<open>stream.switches\<close> is below
  \<open>MAX_RESPONSE_SEGMENTS\<close> (at \<open>MAX_RESPONSE_SEGMENTS - 1\<close> too) it requests one
  continuation and does not touch the stream.
\<close>

theorem segment_ceiling:
  assumes "fin_reason ev = Length"
  shows "(snd (onFinish env c ev) = Threw MaximumSegmentsReached) =
           (switches (c_stream c) \<ge> MAX_RESPONSE_SEGMENTS env)
       \<and> (switches (c_stream c) \<ge> MAX_RESPONSE_SEGMENTS env \<longrightarrow>
            streamTextCalls (fst (onFinish env c ev)) = streamTextCalls c
            \<and> processedMessages (fst (onFinish env c ev)) = processedMessages c
            \<and> c_stream (fst (onFinish env c ev)) = c_stream c)
       \<and> (switches (c_stream c) < MAX_RESPONSE_SEGMENTS env \<longrightarrow>
            snd (onFinish env c ev) = Continued
            \<and> length (streamTextCalls (fst (onFinish env c ev))) = length (streamTextCalls c) + 1
            \<and> c_stream (fst (onFinish env c ev)) = c_stream c)"
proof (cases "switches (c_stream c) \<ge> MAX_RESPONSE_SEGMENTS env")
  case True
  from onFinish_length(1)[OF assms True] True show ?thesis by simp
next
  case False
  then have lt: "switches (c_stream c) < MAX_RESPONSE_SEGMENTS env" by simp
  from onFinish_length(2)[OF assms lt] onFinish_length(3)[OF assms lt] onFinish_stream[of env c ev] lt
  show ?thesis by simp
qed

theorem segment_ceiling_witness:
  "snd (onFinish (sampleEnv 0) (newChat [])
         \<lparr>fin_text = ''partial'', fin_reason = Length, fin_usage = None\<rparr>)
     = Threw MaximumSegmentsReached
   \<and> streamTextCalls (fst (onFinish (sampleEnv 0) (newChat [])
         \<lparr>fin_text = ''partial'', fin_reason = Length, fin_usage = None\<rparr>)) = []
   \<and> snd (onFinish (sampleEnv 2) (newChat [])
         \<lparr>fin_text = ''partial'', fin_reason = Length, fin_usage = None\<rparr>) = Continued
   \<and> length (streamTextCalls (fst (onFinish (sampleEnv 2) (newChat [])
         \<lparr>fin_text = ''partial'', fin_reason = Length, fin_usage = None\<rparr>))) = 1"
proof -
  have l: "fin_reason \<lparr>fin_text = ''partial'', fin_reason = Length, fin_usage = None\<rparr> = Length"
    by simp
  have m0: "MAX_RESPONSE_SEGMENTS (sampleEnv 0) \<le> switches (c_stream (newChat []))"
    and m2: "switches (c_stream (newChat [])) < MAX_RESPONSE_SEGMENTS (sampleEnv 2)"
    by (simp_all add: new_chat_switches sampleEnv_def)
  have e: "streamTextCalls (newChat []) = []"
    by (simp add: newChat_def)
  from segment_ceiling[OF l, of "sampleEnv 0" "newChat []"] m0 e
  have a: "snd (onFinish (sampleEnv 0) (newChat [])
         \<lparr>fin_text = ''partial'', fin_reason = Length, fin_usage = None\<rparr>)
     = Threw MaximumSegmentsReached
   \<and> streamTextCalls (fst (onFinish (sampleEnv 0) (newChat [])
         \<lparr>fin_text = ''partial'', fin_reason = Length, fin_usage = None\<rparr>)) = []"
    by simp
  from segment_ceiling[OF l, of "sampleEnv 2" "newChat []"] m2 e
  have b: "snd (onFinish (sampleEnv 2) (newChat [])
         \<lparr>fin_text = ''partial'', fin_reason = Length, fin_usage = None\<rparr>) = Continued
   \<and> length (streamTextCalls (fst (onFinish (sampleEnv 2) (newChat [])
         \<lparr>fin_text = ''partial'', fin_reason = Length, fin_usage = None\<rparr>))) = 1"
    by simp
  from a b show ?thesis by blast
qed

text \<open>
  The claim C1 as it is worded puts the ceiling at \<open>maxSegments - 1\<close>: with
  \<open>MAX_RESPONSE_SEGMENTS = 1\<close> and \<open>stream.switches = 0\<close> a truncated segment is
  continued, with a further call to \<^verbatim>\<open>streamText\<close>, and nothing is thrown; likewise
  with \<open>MAX_RESPONSE_SEGMENTS = 2\<close> and a stream that has switched once.
\<close>

theorem segment_ceiling_counterexample:
  "switches (c_stream (newChat [])) = MAX_RESPONSE_SEGMENTS (sampleEnv 1) - 1
   \<and> snd (onFinish (sampleEnv 1) (newChat [])
         \<lparr>fin_text = ''partial'', fin_reason = Length, fin_usage = None\<rparr>) = Continued
   \<and> streamTextCalls (fst (onFinish (sampleEnv 1) (newChat [])
         \<lparr>fin_text = ''partial'', fin_reason = Length, fin_usage = None\<rparr>))
      = [[\<lparr>msg_role = Assistant, msg_content = ''partial''\<rparr>,
          continueMessage (sampleEnv 1) ''model'' ''provider'']]
   \<and> switches (c_stream ((newChat [])\<lparr>c_stream := switchSource newSwitchableStream faultySource\<rparr>))
      = MAX_RESPONSE_SEGMENTS (sampleEnv 2) - 1
   \<and> snd (onFinish (sampleEnv 2)
         ((newChat [])\<lparr>c_stream := switchSource newSwitchableStream faultySource\<rparr>)
         \<lparr>fin_text = ''partial'', fin_reason = Length, fin_usage = None\<rparr>) = Continued"
  by (simp add: onFinish_def sampleEnv_def sampleProperties_def Let_def switches_def
      switchSource_switches new_switcher_facts settlePump_def cancelSettles_def
      faultySource_def newChat_def lastUserMessage_def)

text \<open>
  Claim C6 (usage additivity), as the code has it. Every finish handler adds the
  reported usage to the accumulator, element by element, an absent usage or figure
  counting as 0. When all segments but the last are truncated, the accumulator after
  the last segment is its starting value plus the element-wise sum of the usages of all
  segments. The result of adding a list of usages is the starting value plus their sum
  and is the same for every order of the list. The totals are nowhere below the
  starting value when no reported figure is negative.
\<close>

theorem usage_additivity:
  "cumulativeUsage (fst (onFinish env c ev)) =
     usageAdd (cumulativeUsage c) (reportedValue (fin_usage ev))
   \<and> cumulativeUsage (auxOnFinish c u) = usageAdd (cumulativeUsage c) (reportedValue u)
   \<and> (switches (c_stream c) < MAX_RESPONSE_SEGMENTS env
        \<and> (\<forall>e \<in> set evs. fin_reason e = Length) \<longrightarrow>
        cumulativeUsage (fst (runSegments env c (evs @ [ev]))) =
          usageAdd (cumulativeUsage c) (usageSum (map fin_usage (evs @ [ev]))))
   \<and> addUsages acc us = usageAdd acc (usageSum us)
   \<and> (mset us = mset us' \<longrightarrow> addUsages acc us = addUsages acc us')
   \<and> ((\<forall>r \<in> set us. nonNegative r) \<longrightarrow> usageLe acc (addUsages acc us))"
proof (intro conjI impI)
  show "cumulativeUsage (fst (onFinish env c ev)) =
          usageAdd (cumulativeUsage c) (reportedValue (fin_usage ev))"
    by (simp add: onFinish_usage addUsage_add)
  show "cumulativeUsage (auxOnFinish c u) = usageAdd (cumulativeUsage c) (reportedValue u)"
    by (simp add: auxOnFinish_def addUsage_add)
  show "addUsages acc us = usageAdd acc (usageSum us)"
    by (rule addUsages_sum)
next
  assume h: "switches (c_stream c) < MAX_RESPONSE_SEGMENTS env
             \<and> (\<forall>e \<in> set evs. fin_reason e = Length)"
  then have lt: "switches (c_stream c) < MAX_RESPONSE_SEGMENTS env"
    and tr: "\<forall>e \<in> set evs. fin_reason e = Length" by simp_all
  note t = runSegments_truncated[OF lt tr]
  let ?c' = "fst (runSegments env c evs)"
  have "runSegments env c (evs @ [ev]) = runSegments env ?c' [ev]"
    using t by (simp add: runSegments_append)
  then have "cumulativeUsage (fst (runSegments env c (evs @ [ev])))
               = cumulativeUsage (fst (onFinish env ?c' ev))"
    by (cases "onFinish env ?c' ev"; cases "snd (onFinish env ?c' ev)") simp_all
  also have "\<dots> = addUsage (addUsages (cumulativeUsage c) (map fin_usage evs)) (fin_usage ev)"
    using t by (simp add: onFinish_usage)
  also have "\<dots> = addUsages (cumulativeUsage c) (map fin_usage (evs @ [ev]))"
    by (simp add: addUsages_def)
  finally show "cumulativeUsage (fst (runSegments env c (evs @ [ev]))) =
          usageAdd (cumulativeUsage c) (usageSum (map fin_usage (evs @ [ev])))"
    by (simp only: addUsages_sum)
next
  assume "mset us = mset us'"
  then show "addUsages acc us = addUsages acc us'"
    by (simp add: addUsages_sum usageSum_mset[of us us'])
next
  assume "\<forall>r \<in> set us. nonNegative r"
  from usageSum_nonneg[OF this] show "usageLe acc (addUsages acc us)"
    by (simp add: addUsages_sum usageLe_def usageAdd_def zeroUsage_def)
qed

theorem usage_additivity_witness:
  "cumulativeUsage (fst (runSegments (sampleEnv 2) (newChat [])
      ([\<lparr>fin_text = ''a'', fin_reason = Length,
          fin_usage = Some \<lparr>r_completionTokens = Some 10, r_promptTokens = Some 20,
                             r_totalTokens = Some 30\<rparr>\<rparr>]
       @ [\<lparr>fin_text = ''b'', fin_reason = Stop_reason,
            fin_usage = Some \<lparr>r_completionTokens = Some 1, r_promptTokens = None,
                               r_totalTokens = Some 3\<rparr>\<rparr>])))
     = \<lparr>completionTokens = 11, promptTokens = 20, totalTokens = 33\<rparr>
   \<and> addUsages zeroUsage
        [Some \<lparr>r_completionTokens = Some 10, r_promptTokens = Some 20, r_totalTokens = Some 30\<rparr>,
         None]
     = addUsages zeroUsage
        [None,
         Some \<lparr>r_completionTokens = Some 10, r_promptTokens = Some 20, r_totalTokens = Some 30\<rparr>]
   \<and> usageLe zeroUsage (addUsages zeroUsage
        [Some \<lparr>r_completionTokens = Some 10, r_promptTokens = Some 20, r_totalTokens = Some 30\<rparr>,
         None])"
proof -
  let ?e1 = "\<lparr>fin_text = ''a'', fin_reason = Length,
          fin_usage = Some \<lparr>r_completionTokens = Some 10, r_promptTokens = Some 20,
                             r_totalTokens = Some 30\<rparr>\<rparr>"
  let ?e2 = "\<lparr>fin_text = ''b'', fin_reason = Stop_reason,
            fin_usage = Some \<lparr>r_completionTokens = Some 1, r_promptTokens = None,
                               r_totalTokens = Some 3\<rparr>\<rparr>"
  let ?u = "Some \<lparr>r_completionTokens = Some 10, r_promptTokens = Some 20,
                   r_totalTokens = Some 30\<rparr>"
  note t = usage_additivity[where env = "sampleEnv 2" and c = "newChat []"
      and evs = "[?e1]" and ev = ?e2 and u = None and acc = zeroUsage
      and us = "[?u, None]" and us' = "[None, ?u]"]
  have h: "switches (c_stream (newChat [])) < MAX_RESPONSE_SEGMENTS (sampleEnv 2)
           \<and> (\<forall>e \<in> set [?e1]. fin_reason e = Length)"
    by (simp add: new_chat_switches sampleEnv_def)
  have m: "mset [?u, None] = mset [None, ?u]"
    by simp
  have n: "\<forall>r \<in> set [?u, None]. nonNegative r"
    by (simp add: nonNegative_def usageLe_def reportedValue_def figure_def zeroUsage_def)
  from t h m n
  have c: "cumulativeUsage (fst (runSegments (sampleEnv 2) (newChat []) ([?e1] @ [?e2]))) =
          usageAdd (cumulativeUsage (newChat [])) (usageSum (map fin_usage ([?e1] @ [?e2])))
        \<and> addUsages zeroUsage [?u, None] = addUsages zeroUsage [None, ?u]
        \<and> usageLe zeroUsage (addUsages zeroUsage [?u, None])"
    by blast
  have v: "usageAdd (cumulativeUsage (newChat [])) (usageSum (map fin_usage ([?e1] @ [?e2])))
             = \<lparr>completionTokens = 11, promptTokens = 20, totalTokens = 33\<rparr>"
    by (simp add: new_chat_usage usageSum_def usageAdd_def reportedValue_def figure_def
        zeroUsage_def)
  have c1: "cumulativeUsage (fst (runSegments (sampleEnv 2) (newChat []) ([?e1] @ [?e2])))
              = \<lparr>completionTokens = 11, promptTokens = 20, totalTokens = 33\<rparr>"
    using c[THEN conjunct1] v by (rule trans)
  show ?thesis
    using c1 c[THEN conjunct2] by (rule conjI)
qed

text \<open>
  The claim C6 as it is worded has the totals only increase; the handler adds whatever
  figure is reported, so a report with a negative figure lowers the total.
\<close>

theorem usage_additivity_counterexample:
  "completionTokens (cumulativeUsage (fst (onFinish (sampleEnv 2) (newChat [])
      \<lparr>fin_text = ''a'', fin_reason = Stop_reason,
       fin_usage = Some \<lparr>r_completionTokens = Some (- 5), r_promptTokens = Some 0,
                          r_totalTokens = Some (- 5)\<rparr>\<rparr>)))
     < completionTokens (cumulativeUsage (newChat []))"
  by (simp add: onFinish_def newChat_def zeroUsage_def addUsage_def orDefault_def Let_def)

text \<open>
  Claim C9 (the chat action never switches its stream). Neither the finish handler of
  the segments, nor the finish handlers of the auxiliary calls, nor any run of segments
  changes the \<^verbatim>\<open>SwitchableStream\<close> of the request, which starts as a new one. So
  \<open>stream.switches\<close> is 0 after any number of segments, and with
  \<open>MAX_RESPONSE_SEGMENTS \<ge> 1\<close> the segment guard never throws.
\<close>

theorem no_switch_in_chat:
  "c_stream (fst (onFinish env c ev)) = c_stream c
   \<and> c_stream (auxOnFinish c u) = c_stream c
   \<and> c_stream (fst (runSegments env c evs)) = c_stream c
   \<and> c_stream (newChat ms) = newSwitchableStream
   \<and> (c_stream c = newSwitchableStream \<and> 1 \<le> MAX_RESPONSE_SEGMENTS env \<longrightarrow>
        switches (c_stream (fst (runSegments env c evs))) = 0
        \<and> snd (runSegments env c evs) \<noteq> Threw MaximumSegmentsReached)"
proof -
  have "snd (runSegments env c evs) \<noteq> Threw MaximumSegmentsReached"
    if "c_stream c = newSwitchableStream" and "1 \<le> MAX_RESPONSE_SEGMENTS env"
  proof -
    have "switches (c_stream c) < MAX_RESPONSE_SEGMENTS env"
      using that by (simp add: switches_def new_switcher_facts)
    then show ?thesis by (rule runSegments_no_throw)
  qed
  then show ?thesis
    by (simp add: onFinish_stream runSegments_stream auxOnFinish_def new_chat_stream
        switches_def new_switcher_facts)
qed

theorem no_switch_in_chat_witness:
  "switches (c_stream (fst (runSegments (sampleEnv 1) (newChat [])
      [\<lparr>fin_text = ''a'', fin_reason = Length, fin_usage = None\<rparr>,
       \<lparr>fin_text = ''b'', fin_reason = Length, fin_usage = None\<rparr>,
       \<lparr>fin_text = ''c'', fin_reason = Length, fin_usage = None\<rparr>]))) = 0
   \<and> snd (runSegments (sampleEnv 1) (newChat [])
      [\<lparr>fin_text = ''a'', fin_reason = Length, fin_usage = None\<rparr>,
       \<lparr>fin_text = ''b'', fin_reason = Length, fin_usage = None\<rparr>,
       \<lparr>fin_text = ''c'', fin_reason = Length, fin_usage = None\<rparr>])
     \<noteq> Threw MaximumSegmentsReached"
proof -
  have h: "c_stream (newChat []) = newSwitchableStream
           \<and> 1 \<le> MAX_RESPONSE_SEGMENTS (sampleEnv 1)"
    by (simp add: new_chat_stream sampleEnv_def)
  note t = no_switch_in_chat[where env = "sampleEnv 1" and ms = "[]" and c = "newChat []"
      and u = None
      and ev = "\<lparr>fin_text = ''a'', fin_reason = Length, fin_usage = None\<rparr>"
      and evs = "[\<lparr>fin_text = ''a'', fin_reason = Length, fin_usage = None\<rparr>,
       \<lparr>fin_text = ''b'', fin_reason = Length, fin_usage = None\<rparr>,
       \<lparr>fin_text = ''c'', fin_reason = Length, fin_usage = None\<rparr>]"]
  from t h show ?thesis by blast
qed

end
